theory Spec2Isabelle
  imports Main "HOL-Library.Multiset" "HOL-Library.Product_Lexorder"
begin

section \<open>MacroViz: the World Bank fetch, its normalisation and the page script\<close>

text \<open>
  The development follows \<^verbatim>\<open>src/app.py\<close>: the function \<^verbatim>\<open>fetch_world_bank\<close>
  (lines 22 to 47) and the page script around it (lines 61 to 110).

  Conventions of the model.
  \<^item> A character is a code point below 256. \<^verbatim>\<open>strip\<close>, \<^verbatim>\<open>upper\<close> and \<^verbatim>\<open>int\<close> treat
    these code points as Python 3.11 does, with one exception: \<^verbatim>\<open>upper\<close> leaves the
    three lower-case letters unchanged whose upper case is not one code point below 256
    (U+00B5, U+00DF, U+00FF). Text with code points from 256 on is outside the model.
  \<^item> A parsed JSON document is a Python value (\<open>pyval\<close>); a \<^verbatim>\<open>dict\<close> is an
    association list whose first binding of a key is the dict's entry.
  \<^item> A Python \<^verbatim>\<open>float\<close> is \<open>Finite m e\<close> (the number \<open>m * 2 ^ e\<close>), or one of the
    three special values.
  \<^item> A pandas table is its column names and its rows, each row with its index label.
    A cell holds the value pandas stores: \<^verbatim>\<open>pd.DataFrame(rows)\<close> turns the integers of a
    column into 64-bit floats when the column also holds a null or a float
    (\<open>store_column\<close>). Whether an unchanged integer is an \<^verbatim>\<open>int64\<close> or a Python object,
    and what \<^verbatim>\<open>pd.concat\<close> does to the dtypes, is not part of the model.
  \<^item> \<^verbatim>\<open>sort_values\<close> sorts ascending and puts the missing keys last. pandas's default
    algorithm does not fix the order of rows with equal keys, so that order is a
    parameter of the model (\<open>tie_order\<close>): every theorem with a parameter \<open>alg\<close> holds
    for every order the algorithm may give such rows.
  \<^item> Every exception the code can raise is a value of \<open>error\<close>, returned as \<open>Inl\<close>.
\<close>

subsection \<open>Python values\<close>

datatype error =
    RequestException
  | HTTPError nat
  | JSONDecodeError
  | TypeError
  | AttributeError
  | ValueError
  | OverflowError
  | KeyError

datatype pyfloat = Finite int int | NaN | PosInf | NegInf

datatype pyval =
    PNone
  | PBool bool
  | PInt int
  | PFloat pyfloat
  | PStr string
  | PList "pyval list"
  | PDict "(string \<times> pyval) list"

text \<open>Truth value testing, as \<^verbatim>\<open>if year\<close> and \<^verbatim>\<open>x or {}\<close> use it.\<close>

fun truthy :: "pyval \<Rightarrow> bool" where
  "truthy PNone = False"
| "truthy (PBool b) = b"
| "truthy (PInt n) = (n \<noteq> 0)"
| "truthy (PFloat f) = (case f of Finite m e \<Rightarrow> m \<noteq> 0 | _ \<Rightarrow> True)"
| "truthy (PStr s) = (s \<noteq> [])"
| "truthy (PList xs) = (xs \<noteq> [])"
| "truthy (PDict kvs) = (kvs \<noteq> [])"

text \<open>\<^verbatim>\<open>d.get(k, default)\<close> on a dict.\<close>

definition dict_get :: "(string \<times> pyval) list \<Rightarrow> string \<Rightarrow> pyval \<Rightarrow> pyval" where
  "dict_get kvs k d = (case map_of kvs k of Some v \<Rightarrow> v | None \<Rightarrow> d)"

text \<open>\<^verbatim>\<open>x.get(k, default)\<close> on any value: only a dict has the method.\<close>

definition py_get :: "pyval \<Rightarrow> string \<Rightarrow> pyval \<Rightarrow> error + pyval" where
  "py_get x k d = (case x of PDict kvs \<Rightarrow> Inr (dict_get kvs k d) | _ \<Rightarrow> Inl AttributeError)"

text \<open>\<^verbatim>\<open>(item.get(k) or {}).get(k2, default)\<close>, lines 40 and 41.\<close>

definition nested_get :: "(string \<times> pyval) list \<Rightarrow> string \<Rightarrow> string \<Rightarrow> pyval \<Rightarrow> error + pyval" where
  "nested_get item k k2 d =
     (let v = dict_get item k PNone in if truthy v then py_get v k2 d else Inr d)"

subsection \<open>Strings\<close>

text \<open>The characters \<^verbatim>\<open>str.strip()\<close> removes: those for which \<^verbatim>\<open>str.isspace\<close> holds.\<close>

definition is_space :: "char \<Rightarrow> bool" where
  "is_space c = ((of_char c :: nat) \<in> {9, 10, 11, 12, 13, 28, 29, 30, 31, 32, 133, 160})"

text \<open>
  The characters \<^verbatim>\<open>int\<close> skips around a number: tab, line feed, vertical tab, form
  feed, carriage return and space, and the two other spaces below 256, which \<^verbatim>\<open>int\<close>
  first turns into a space. The separators 28 to 31 are not skipped.
\<close>

definition is_int_space :: "char \<Rightarrow> bool" where
  "is_int_space c = ((of_char c :: nat) \<in> {9, 10, 11, 12, 13, 32, 133, 160})"

definition is_digit :: "char \<Rightarrow> bool" where
  "is_digit c = (48 \<le> (of_char c :: nat) \<and> (of_char c :: nat) \<le> 57)"

definition digit_val :: "char \<Rightarrow> int" where
  "digit_val c = int (of_char c) - 48"

text \<open>
  The lower-case letters whose upper case is a code point below 256: a to z, and 224 to
  254 without the division sign 247.
\<close>

definition is_lower :: "char \<Rightarrow> bool" where
  "is_lower c =
     ((97 \<le> (of_char c :: nat) \<and> (of_char c :: nat) \<le> 122)
      \<or> (224 \<le> (of_char c :: nat) \<and> (of_char c :: nat) \<le> 254 \<and> (of_char c :: nat) \<noteq> 247))"

definition upper_char :: "char \<Rightarrow> char" where
  "upper_char c = (if is_lower c then char_of ((of_char c :: nat) - 32) else c)"

definition upper :: "string \<Rightarrow> string" where
  "upper s = map upper_char s"

definition strip :: "string \<Rightarrow> string" where
  "strip s = rev (dropWhile is_space (rev (dropWhile is_space s)))"

text \<open>\<^verbatim>\<open>s.split(",")\<close>: the pieces between the commas; never an empty list.\<close>

fun split_comma :: "string \<Rightarrow> string list" where
  "split_comma [] = [[]]"
| "split_comma (c # cs) =
     (if c = CHR '','' then [] # split_comma cs
      else (case split_comma cs of t # ts \<Rightarrow> (c # t) # ts | [] \<Rightarrow> [[c]]))"

text \<open>
  \<^verbatim>\<open>int(s)\<close> on a string, base ten: surrounding whitespace, one optional sign, then
  digits, where single underscores may stand between two digits. A string with more
  than 4300 digits is refused (the default limit of Python 3.11 on the conversion).
\<close>

fun parse_digits :: "string \<Rightarrow> int \<Rightarrow> int option" where
  "parse_digits [] acc = Some acc"
| "parse_digits [c] acc = (if is_digit c then Some (acc * 10 + digit_val c) else None)"
| "parse_digits (c # d # ds) acc =
     (if is_digit c then parse_digits (d # ds) (acc * 10 + digit_val c)
      else if c = CHR ''_'' \<and> is_digit d then parse_digits ds (acc * 10 + digit_val d)
      else None)"

definition parse_unsigned :: "string \<Rightarrow> int option" where
  "parse_unsigned s =
     (case s of [] \<Rightarrow> None
      | d # ds \<Rightarrow> if is_digit d then parse_digits ds (digit_val d) else None)"

definition strip_int :: "string \<Rightarrow> string" where
  "strip_int s = rev (dropWhile is_int_space (rev (dropWhile is_int_space s)))"

definition max_str_digits :: nat where
  "max_str_digits = 4300"

definition int_of_str :: "string \<Rightarrow> int option" where
  "int_of_str s =
     (case strip_int s of
        [] \<Rightarrow> None
      | c # cs \<Rightarrow>
          if max_str_digits < length (filter is_digit (c # cs)) then None
          else if c = CHR ''-'' then map_option uminus (parse_unsigned cs)
          else if c = CHR ''+'' then parse_unsigned cs
          else parse_unsigned (c # cs))"

text \<open>\<^verbatim>\<open>int(x)\<close>: a float is truncated towards zero.\<close>

definition trunc_float :: "int \<Rightarrow> int \<Rightarrow> int" where
  "trunc_float m e =
     (if 0 \<le> e then m * 2 ^ nat e
      else if 0 \<le> m then m div 2 ^ nat (- e)
      else - ((- m) div 2 ^ nat (- e)))"

fun py_int :: "pyval \<Rightarrow> error + int" where
  "py_int PNone = Inl TypeError"
| "py_int (PBool b) = Inr (if b then 1 else 0)"
| "py_int (PInt n) = Inr n"
| "py_int (PFloat f) =
     (case f of Finite m e \<Rightarrow> Inr (trunc_float m e)
      | NaN \<Rightarrow> Inl ValueError
      | _ \<Rightarrow> Inl OverflowError)"
| "py_int (PStr s) = (case int_of_str s of Some n \<Rightarrow> Inr n | None \<Rightarrow> Inl ValueError)"
| "py_int (PList xs) = Inl TypeError"
| "py_int (PDict kvs) = Inl TypeError"

text \<open>What a \<^verbatim>\<open>for\<close> loop iterates over: the keys of a dict, the characters of a string.\<close>

fun py_iter :: "pyval \<Rightarrow> error + pyval list" where
  "py_iter (PList xs) = Inr xs"
| "py_iter (PDict kvs) = Inr (map (\<lambda>kv. PStr (fst kv)) kvs)"
| "py_iter (PStr s) = Inr (map (\<lambda>c. PStr [c]) s)"
| "py_iter _ = Inl TypeError"

subsection \<open>Rows and tables\<close>

record row =
  iso3 :: string
  country :: pyval
  indicator :: pyval
  year :: "int option"
  obs_value :: pyval

record frame =
  columns :: "string list"
  data :: "(nat \<times> row) list"

definition obs_columns :: "string list" where
  "obs_columns = [''iso3'', ''country'', ''indicator'', ''year'', ''value'']"

subsection \<open>How pandas stores a column\<close>

text \<open>
  \<^verbatim>\<open>pd.DataFrame(rows)\<close> looks at the cells of each column in turn to choose how to
  store it. The number of binary digits of a positive integer:
\<close>

function bitlen :: "int \<Rightarrow> nat" where
  "bitlen n = (if n \<le> 0 then 0 else Suc (bitlen (n div 2)))"
  by pat_completeness auto
termination
  by (relation "measure nat") auto

declare bitlen.simps [simp del]

text \<open>The 64-bit float nearest to an integer, halves to the even neighbour.\<close>

definition round_double :: "int \<Rightarrow> int" where
  "round_double n =
     (let a = \<bar>n\<bar>; k = bitlen a in
      if k \<le> 53 then n
      else (let sh = k - 53; q = a div 2 ^ sh; r = a mod 2 ^ sh; h = 2 ^ (sh - 1);
                q' = (if h < r \<or> (r = h \<and> odd q) then q + 1 else q)
            in sgn n * (q' * 2 ^ sh)))"

text \<open>An integer too large for a float: the conversion raises \<^verbatim>\<open>OverflowError\<close>.\<close>

definition float_overflow :: "int \<Rightarrow> bool" where
  "float_overflow n = (2 ^ 1024 \<le> \<bar>round_double n\<bar>)"

text \<open>
  The pass over the cells (\<^verbatim>\<open>maybe_convert_objects\<close>): it stops at a string, list or
  dict, and at an integer outside the 64-bit range, or of the other sign range, met
  before any null; each integer it meets is converted to a float on the way. The flags
  are: a null was met, an integer from \<open>2 ^ 63\<close> on was met, a negative integer was met.
\<close>

datatype scan_result = Completed | Broke | Raised

fun scan :: "pyval list \<Rightarrow> bool \<Rightarrow> bool \<Rightarrow> bool \<Rightarrow> scan_result" where
  "scan [] nul u s = Completed"
| "scan (PNone # vs) nul u s = scan vs True u s"
| "scan (PBool b # vs) nul u s = scan vs nul u s"
| "scan (PFloat f # vs) nul u s = scan vs nul u s"
| "scan (PInt n # vs) nul u s =
     (if float_overflow n then Raised
      else if nul then scan vs nul u s
      else (let u' = (u \<or> 2 ^ 63 \<le> n); s' = (s \<or> n < 0) in
            if (u' \<and> s') \<or> 2 ^ 64 \<le> n \<or> n < - (2 ^ 63) then Broke
            else scan vs nul u' s'))"
| "scan (PStr x # vs) nul u s = Broke"
| "scan (PList xs # vs) nul u s = Broke"
| "scan (PDict kvs # vs) nul u s = Broke"

fun is_none :: "pyval \<Rightarrow> bool" where
  "is_none PNone = True"
| "is_none _ = False"

fun is_bool :: "pyval \<Rightarrow> bool" where
  "is_bool (PBool b) = True"
| "is_bool _ = False"

fun is_pint :: "pyval \<Rightarrow> bool" where
  "is_pint (PInt n) = True"
| "is_pint _ = False"

fun is_float :: "pyval \<Rightarrow> bool" where
  "is_float (PFloat f) = True"
| "is_float _ = False"

text \<open>A cell of a column stored as 64-bit floats: a null becomes the missing float.\<close>

fun to_float64 :: "pyval \<Rightarrow> pyval" where
  "to_float64 (PInt n) = PFloat (Finite (round_double n) 0)"
| "to_float64 PNone = PFloat NaN"
| "to_float64 v = v"

text \<open>
  The stored column. A column the pass went through without a bool is stored as floats
  when it holds a float, or a null together with an integer; every other column keeps
  its cells.
\<close>

definition store_column :: "pyval list \<Rightarrow> error + pyval list" where
  "store_column vs =
     (case scan vs False False False of
        Raised \<Rightarrow> Inl OverflowError
      | Broke \<Rightarrow> Inr vs
      | Completed \<Rightarrow>
          Inr (if list_ex is_bool vs then vs
               else if list_ex is_float vs \<or> (list_ex is_none vs \<and> list_ex is_pint vs)
                    then map to_float64 vs
               else vs))"

text \<open>The year of a row as a cell, and the year a stored cell stands for.\<close>

definition year_cell :: "int option \<Rightarrow> pyval" where
  "year_cell y = (case y of None \<Rightarrow> PNone | Some n \<Rightarrow> PInt n)"

fun cell_year :: "pyval \<Rightarrow> int option" where
  "cell_year (PInt n) = Some n"
| "cell_year (PFloat f) = (case f of Finite m e \<Rightarrow> Some (trunc_float m e) | _ \<Rightarrow> None)"
| "cell_year _ = None"

definition put_cells :: "row \<times> pyval \<times> pyval \<times> pyval \<times> pyval \<Rightarrow> row" where
  "put_cells x =
     (case x of (r, c, i, y, v) \<Rightarrow>
        r\<lparr>country := c, indicator := i, year := cell_year y, obs_value := v\<rparr>)"

text \<open>The rows as stored, column by column; the codes of \<^verbatim>\<open>iso3\<close> are strings and stay.\<close>

definition store_rows :: "row list \<Rightarrow> error + row list" where
  "store_rows rs =
     (case store_column (map country rs) of
        Inl e \<Rightarrow> Inl e
      | Inr cs \<Rightarrow>
     (case store_column (map indicator rs) of
        Inl e \<Rightarrow> Inl e
      | Inr ids \<Rightarrow>
     (case store_column (map (\<lambda>r. year_cell (year r)) rs) of
        Inl e \<Rightarrow> Inl e
      | Inr ys \<Rightarrow>
     (case store_column (map obs_value rs) of
        Inl e \<Rightarrow> Inl e
      | Inr vs \<Rightarrow> Inr (map put_cells (zip rs (zip cs (zip ids (zip ys vs)))))))))"

text \<open>The table of a list of stored rows: no rows, no columns.\<close>

definition frame_of_rows :: "row list \<Rightarrow> frame" where
  "frame_of_rows ts = \<lparr>columns = (if ts = [] then [] else obs_columns), data = enumerate 0 ts\<rparr>"

text \<open>\<^verbatim>\<open>pd.DataFrame(rows)\<close> for the list of dicts of line 46.\<close>

definition DataFrame :: "row list \<Rightarrow> error + frame" where
  "DataFrame rs = (case store_rows rs of Inl e \<Rightarrow> Inl e | Inr ts \<Rightarrow> Inr (frame_of_rows ts))"

text \<open>\<^verbatim>\<open>pd.DataFrame(columns=[...])\<close>, line 33, and \<^verbatim>\<open>pd.DataFrame()\<close>, line 87.\<close>

definition empty_obs_frame :: frame where
  "empty_obs_frame = \<lparr>columns = obs_columns, data = []\<rparr>"

definition empty_frame :: frame where
  "empty_frame = \<lparr>columns = [], data = []\<rparr>"

text \<open>\<^verbatim>\<open>df.empty\<close>: one of the two axes has length zero.\<close>

definition df_empty :: "frame \<Rightarrow> bool" where
  "df_empty f = (columns f = [] \<or> data f = [])"

subsection \<open>Normalisation\<close>

definition has_year :: "nat \<times> row \<Rightarrow> bool" where
  "has_year p = (year (snd p) \<noteq> None)"

text \<open>The sort key of a row that has a year.\<close>

definition row_year :: "row \<Rightarrow> int" where
  "row_year r = (case year r of Some y \<Rightarrow> y | None \<Rightarrow> 0)"

definition year_key :: "nat \<times> row \<Rightarrow> int" where
  "year_key p = row_year (snd p)"

text \<open>\<^verbatim>\<open>.dropna(subset=["year"])\<close>: a column that is not there is a \<^verbatim>\<open>KeyError\<close>.\<close>

definition dropna_year :: "frame \<Rightarrow> error + frame" where
  "dropna_year f =
     (if ''year'' \<notin> set (columns f) then Inl KeyError
      else Inr (f\<lparr>data := filter has_year (data f)\<rparr>))"

text \<open>
  The order a sorting algorithm gives the rows of equal key: for the rows that are
  sorted, a rank for each of them. Rows of equal year come out in ascending rank, and
  rows of equal year and rank in the order they had.
\<close>

type_synonym tie_order = "(nat \<times> row) list \<Rightarrow> nat \<times> row \<Rightarrow> nat"

text \<open>
  \<^verbatim>\<open>.sort_values("year")\<close> with the default algorithm: ascending in the year, the rows
  of equal year as the algorithm leaves them, the missing values last.
\<close>

definition sort_values_year :: "tie_order \<Rightarrow> frame \<Rightarrow> error + frame" where
  "sort_values_year alg f =
     (if ''year'' \<notin> set (columns f) then Inl KeyError
      else Inr (f\<lparr>data :=
                   sort_key (\<lambda>p. (year_key p, alg (filter has_year (data f)) p))
                     (filter has_year (data f))
                   @ filter (\<lambda>p. \<not> has_year p) (data f)\<rparr>))"

text \<open>\<^verbatim>\<open>.reset_index(drop=True)\<close>: the labels become 0, 1, 2, ...\<close>

definition reset_index :: "frame \<Rightarrow> frame" where
  "reset_index f = f\<lparr>data := enumerate 0 (map snd (data f))\<rparr>"

text \<open>Line 46 after \<^verbatim>\<open>pd.DataFrame(rows)\<close>: the normalisation of a table.\<close>

definition normalize :: "tie_order \<Rightarrow> frame \<Rightarrow> error + frame" where
  "normalize alg f =
     (case dropna_year f of
        Inl e \<Rightarrow> Inl e
      | Inr g \<Rightarrow> (case sort_values_year alg g of
                   Inl e \<Rightarrow> Inl e
                 | Inr h \<Rightarrow> Inr (reset_index h)))"

subsection \<open>The fetch\<close>

text \<open>One pass of the loop body, lines 37 to 44.\<close>

definition make_row :: "string \<Rightarrow> string \<Rightarrow> pyval \<Rightarrow> error + row" where
  "make_row country_iso3 ind item =
     (case item of
        PDict kvs \<Rightarrow>
          (let y = dict_get kvs ''date'' PNone in
           case nested_get kvs ''country'' ''value'' (PStr (upper country_iso3)) of
             Inl e \<Rightarrow> Inl e
           | Inr cn \<Rightarrow>
          (case nested_get kvs ''indicator'' ''id'' (PStr ind) of
             Inl e \<Rightarrow> Inl e
           | Inr i \<Rightarrow>
          (case (if truthy y then map_sum id Some (py_int y) else Inr None) of
             Inl e \<Rightarrow> Inl e
           | Inr yr \<Rightarrow>
               Inr \<lparr>iso3 = upper country_iso3, country = cn, indicator = i, year = yr,
                    obs_value = dict_get kvs ''value'' PNone\<rparr>)))
      | _ \<Rightarrow> Inl AttributeError)"

text \<open>The loop of lines 35 to 44; \<open>rows\<close> is the list the loop appends to.\<close>

fun build_rows :: "string \<Rightarrow> string \<Rightarrow> pyval list \<Rightarrow> row list \<Rightarrow> error + row list" where
  "build_rows country_iso3 ind [] rows = Inr rows"
| "build_rows country_iso3 ind (item # items) rows =
     (case make_row country_iso3 ind item of
        Inl e \<Rightarrow> Inl e
      | Inr r \<Rightarrow> build_rows country_iso3 ind items (rows @ [r]))"

text \<open>
  What the service answered: no answer at all (\<^verbatim>\<open>requests.get\<close> raises), or a status
  and a body, where the body is \<open>None\<close> when it is not JSON.
\<close>

datatype response = ConnectionFailed | Reply nat "pyval option"

text \<open>Lines 32 and 33: the test that gives the empty table.\<close>

definition no_data :: "pyval \<Rightarrow> bool" where
  "no_data d =
     (case d of
        PList xs \<Rightarrow> length xs < 2 \<or> xs ! 1 = PNone
      | _ \<Rightarrow> True)"

text \<open>Lines 35 to 47, for a payload that passed the test of line 32.\<close>

definition rows_to_frame :: "tie_order \<Rightarrow> string \<Rightarrow> string \<Rightarrow> pyval \<Rightarrow> error + frame" where
  "rows_to_frame alg country_iso3 ind d1 =
     (case py_iter d1 of
        Inl e \<Rightarrow> Inl e
      | Inr items \<Rightarrow>
          (case build_rows country_iso3 ind items [] of
             Inl e \<Rightarrow> Inl e
           | Inr rows \<Rightarrow>
               (case DataFrame rows of
                  Inl e \<Rightarrow> Inl e
                | Inr df \<Rightarrow> normalize alg df)))"

text \<open>
  The body of \<^verbatim>\<open>fetch_world_bank\<close>, lines 28 to 47, as a function of the answer of
  the service. \<^verbatim>\<open>raise_for_status\<close> raises for the statuses 400 to 599.
\<close>

definition fetch_body :: "tie_order \<Rightarrow> response \<Rightarrow> string \<Rightarrow> string \<Rightarrow> error + frame" where
  "fetch_body alg resp country_iso3 ind =
     (case resp of
        ConnectionFailed \<Rightarrow> Inl RequestException
      | Reply status body \<Rightarrow>
          if 400 \<le> status \<and> status < 600 then Inl (HTTPError status)
          else (case body of
                  None \<Rightarrow> Inl JSONDecodeError
                | Some d \<Rightarrow>
                    if no_data d then Inr empty_obs_frame
                    else (case d of
                            PList xs \<Rightarrow> rows_to_frame alg country_iso3 ind (xs ! 1)
                          | _ \<Rightarrow> Inr empty_obs_frame)))"

subsection \<open>The memoised fetch\<close>

text \<open>
  The arguments of a call: country code, indicator code, first and last year. They are
  the key of \<^verbatim>\<open>st.cache_data\<close> and they determine the URL of the request.
\<close>

type_synonym query = "string \<times> string \<times> int \<times> int"

text \<open>
  The state that outlives a run: the memo table of \<^verbatim>\<open>st.cache_data\<close> and the requests
  sent to the service so far, oldest first.
\<close>

record app_state =
  cache :: "query \<Rightarrow> frame option"
  requests :: "query list"

text \<open>
  The service is any function from the number of requests sent before and the request
  to an answer, so two equal requests may be answered differently.
\<close>

type_synonym service = "nat \<Rightarrow> query \<Rightarrow> response"

text \<open>
  \<^verbatim>\<open>fetch_world_bank\<close> under its decorator, line 22: a stored table is returned without a
  request; a table that was computed is stored; an exception stores nothing.
\<close>

definition fetch_world_bank ::
  "tie_order \<Rightarrow> service \<Rightarrow> app_state \<Rightarrow> query \<Rightarrow> (error + frame) \<times> app_state" where
  "fetch_world_bank alg net st q =
     (case cache st q of
        Some f \<Rightarrow> (Inr f, st)
      | None \<Rightarrow>
          (let resp = net (length (requests st)) q;
               st1 = st\<lparr>requests := requests st @ [q]\<rparr>
           in case fetch_body alg resp (fst q) (fst (snd q)) of
                Inl e \<Rightarrow> (Inl e, st1)
              | Inr f \<Rightarrow> (Inr f, st1\<lparr>cache := (cache st1)(q \<mapsto> f)\<rparr>)))"

subsection \<open>The page script\<close>

record inputs =
  countries_text :: string
  indicator_code :: string
  start_year :: int
  end_year :: int
  run :: bool

text \<open>What a run shows, in order. The static header of the page is left out.\<close>

datatype event =
    Info
  | Error_no_country
  | Error_too_many
  | Fetch_warning string error
  | No_data_warning
  | Chart frame
  | Dataframe frame
  | Download_button frame string int int

text \<open>Line 61.\<close>

definition parse_countries :: "string \<Rightarrow> string list" where
  "parse_countries text =
     map (\<lambda>c. upper (strip c)) (filter (\<lambda>c. strip c \<noteq> []) (split_comma text))"

text \<open>
  The loop of lines 80 to 85: \<open>frames\<close> is the list the loop appends to, \<open>shown\<close> the
  warnings shown so far.
\<close>

fun fetch_loop ::
  "tie_order \<Rightarrow> service \<Rightarrow> string \<Rightarrow> int \<Rightarrow> int \<Rightarrow> string list \<Rightarrow> frame list \<Rightarrow> event list \<Rightarrow> app_state
     \<Rightarrow> frame list \<times> event list \<times> app_state" where
  "fetch_loop alg net ind s e [] frames shown st = (frames, shown, st)"
| "fetch_loop alg net ind s e (c # cs) frames shown st =
     (case fetch_world_bank alg net st (c, ind, s, e) of
        (Inr f, st') \<Rightarrow> fetch_loop alg net ind s e cs (frames @ [f]) shown st'
      | (Inl err, st') \<Rightarrow>
          fetch_loop alg net ind s e cs frames (shown @ [Fetch_warning c err]) st')"

text \<open>Columns in the order of their first appearance.\<close>

definition union_columns :: "string list list \<Rightarrow> string list" where
  "union_columns css = rev (remdups (rev (concat css)))"

text \<open>
  \<^verbatim>\<open>pd.concat(frames, ignore_index=True)\<close>. Line 87 calls it on a list that is not
  empty (on the empty list pandas raises).
\<close>

definition pd_concat :: "frame list \<Rightarrow> frame" where
  "pd_concat fs =
     \<lparr>columns = union_columns (map columns fs),
      data = enumerate 0 (concat (map (\<lambda>f. map snd (data f)) fs))\<rparr>"

text \<open>Line 87.\<close>

definition combine :: "frame list \<Rightarrow> frame" where
  "combine frames = (if frames \<noteq> [] then pd_concat frames else empty_frame)"

text \<open>Lines 93 to 110.\<close>

definition render :: "frame \<Rightarrow> inputs \<Rightarrow> event list" where
  "render df inp =
     [Chart df, Dataframe df,
      Download_button df (indicator_code inp) (start_year inp) (end_year inp)]"

text \<open>Lines 79 to 85 for the inputs of a run.\<close>

definition load_frames ::
  "tie_order \<Rightarrow> service \<Rightarrow> app_state \<Rightarrow> inputs \<Rightarrow> frame list \<times> event list \<times> app_state" where
  "load_frames alg net st inp =
     fetch_loop alg net (indicator_code inp) (start_year inp) (end_year inp)
       (parse_countries (countries_text inp)) [] [] st"

text \<open>
  One execution of the script from line 61 on: what it shows and the state it leaves.
  \<^verbatim>\<open>st.stop()\<close> ends the execution.
\<close>

definition run_page ::
  "tie_order \<Rightarrow> service \<Rightarrow> app_state \<Rightarrow> inputs \<Rightarrow> event list \<times> app_state" where
  "run_page alg net st inp =
     (let countries = parse_countries (countries_text inp) in
      if \<not> run inp then ([Info], st)
      else if length countries = 0 then ([Error_no_country], st)
      else if length countries > 15 then ([Error_too_many], st)
      else (case load_frames alg net st inp of
              (frames, shown, st') \<Rightarrow>
                let df = combine frames in
                if df_empty df then (shown @ [No_data_warning], st')
                else (shown @ render df inp, st')))"

text \<open>The table of line 87 in a run that reaches it.\<close>

definition combined :: "tie_order \<Rightarrow> service \<Rightarrow> app_state \<Rightarrow> inputs \<Rightarrow> frame" where
  "combined alg net st inp = combine (fst (load_frames alg net st inp))"

subsection \<open>Specification functions\<close>

text \<open>
  What each call of \<^verbatim>\<open>fetch_world_bank\<close> in the loop returned, in the order of the
  calls: the country with the table or with the exception.
\<close>

fun outcomes ::
  "tie_order \<Rightarrow> service \<Rightarrow> string \<Rightarrow> int \<Rightarrow> int \<Rightarrow> string list \<Rightarrow> app_state
     \<Rightarrow> (string \<times> (error + frame)) list" where
  "outcomes alg net ind s e [] st = []"
| "outcomes alg net ind s e (c # cs) st =
     (case fetch_world_bank alg net st (c, ind, s, e) of
        (r, st') \<Rightarrow> (c, r) # outcomes alg net ind s e cs st')"



definition run_outcomes ::
  "tie_order \<Rightarrow> service \<Rightarrow> app_state \<Rightarrow> inputs \<Rightarrow> (string \<times> (error + frame)) list" where
  "run_outcomes alg net st inp =
     outcomes alg net (indicator_code inp) (start_year inp) (end_year inp)
       (parse_countries (countries_text inp)) st"

text \<open>The tables among the outcomes and the warnings for the exceptions among them.\<close>

fun tables_of :: "(string \<times> (error + frame)) list \<Rightarrow> frame list" where
  "tables_of [] = []"
| "tables_of ((c, Inr f) # os) = f # tables_of os"
| "tables_of ((c, Inl e) # os) = tables_of os"

fun warnings_of :: "(string \<times> (error + frame)) list \<Rightarrow> event list" where
  "warnings_of [] = []"
| "warnings_of ((c, Inr f) # os) = warnings_of os"
| "warnings_of ((c, Inl e) # os) = Fetch_warning c e # warnings_of os"

text \<open>The rows of a table without their index labels.\<close>

definition rows_of :: "frame \<Rightarrow> row list" where
  "rows_of f = map snd (data f)"

text \<open>
  The memo table holds only what the function returned: each stored table is the
  result of the fetch for its key and some answer of the service.
\<close>

definition cache_ok :: "tie_order \<Rightarrow> app_state \<Rightarrow> bool" where
  "cache_ok alg st =
     (\<forall>q f. cache st q = Some f
        \<longrightarrow> (\<exists>resp. fetch_body alg resp (fst q) (fst (snd q)) = Inr f))"

subsection \<open>Example data\<close>

definition ex_row :: "int \<Rightarrow> row" where
  "ex_row y = \<lparr>iso3 = ''DEU'', country = PStr ''Germany'', indicator = PStr ''SP.POP.TOTL'',
               year = Some y, obs_value = PInt 80\<rparr>"


definition ex_entry :: "string \<Rightarrow> pyval \<Rightarrow> pyval" where
  "ex_entry i d =
     PDict [(''indicator'', PDict [(''id'', PStr i), (''value'', PStr ''Population, total'')]),
            (''country'', PDict [(''id'', PStr ''DE''), (''value'', PStr ''Germany'')]),
            (''countryiso3code'', PStr ''DEU''),
            (''date'', d),
            (''value'', PInt 80)]"

definition ex_payload :: "pyval list \<Rightarrow> pyval" where
  "ex_payload items = PList [PDict [(''page'', PInt 1)], PList items]"

definition ex_items :: "pyval list" where
  "ex_items = [ex_entry ''SP.POP.TOTL'' (PStr ''2021''), ex_entry ''SP.POP.TOTL'' PNone,
               ex_entry ''SP.POP.TOTL'' (PStr ''2020'')]"

definition ex_table :: frame where
  "ex_table = \<lparr>columns = obs_columns, data = [(0, ex_row 2020), (1, ex_row 2021)]\<rparr>"

text \<open>Two orders for rows of equal year: as they were, and reversed.\<close>

definition keep_ties :: tie_order where
  "keep_ties xs p = 0"




definition ex_state :: app_state where
  "ex_state = \<lparr>cache = Map.empty, requests = []\<rparr>"

definition ex_inputs :: "string \<Rightarrow> inputs" where
  "ex_inputs text = \<lparr>countries_text = text, indicator_code = ''SP.POP.TOTL'',
                     start_year = 2000, end_year = 2024, run = True\<rparr>"

text \<open>A service that has the example entries for every country but Brazil, which it
  does not answer for.\<close>

definition ex_service :: service where
  "ex_service n q =
     (if fst q = ''BRA'' then ConnectionFailed
      else Reply 200 (Some (PList [PDict [(''page'', PInt 1)], PList ex_items])))"



text \<open>A service that has no data (the second element of the answer is null) and is
  unavailable for Brazil.\<close>

definition ex_service_null :: service where
  "ex_service_null n q =
     (if fst q = ''BRA'' then Reply 503 None
      else Reply 200 (Some (PList [PDict [(''page'', PInt 0)], PNone])))"

section \<open>Properties\<close>

subsection \<open>Normalisation\<close>

lemma map_snd_filter_has_year:
  "map snd (filter has_year ps) = filter (\<lambda>r. year r \<noteq> None) (map snd ps)"
  by (induction ps) (auto simp: has_year_def)

lemma map_year_key: "map year_key ps = map row_year (map snd ps)"
  by (simp add: year_key_def)

lemma sorted_map_fst_of_pair:
  "sorted (map (\<lambda>p. (f p, h p)) xs) \<Longrightarrow> sorted (map f xs)"
  by (induction xs) auto



lemma normalize_Inr:
  assumes "normalize alg f = Inr g"
  shows "''year'' \<in> set (columns f)"
    and "columns g = columns f"
    and "data g = enumerate 0 (map snd
           (sort_key (\<lambda>p. (year_key p, alg (filter has_year (data f)) p))
              (filter has_year (data f))))"
  using assms
  by (auto simp: normalize_def dropna_year_def sort_values_year_def reset_index_def
      split: if_splits)

lemma normalize_props:
  assumes "normalize alg f = Inr g"
  shows "mset (rows_of g) = mset (filter (\<lambda>r. year r \<noteq> None) (rows_of f))"
    and "sorted (map row_year (rows_of g))"
    and "\<forall>r \<in> set (rows_of g). year r \<noteq> None"
    and "map fst (data g) = [0..<length (data g)]"
proof -
  let ?k = "\<lambda>p. (year_key p, alg (filter has_year (data f)) p)"
  let ?D = "sort_key ?k (filter has_year (data f))"
  have d: "data g = enumerate 0 (map snd ?D)"
    using normalize_Inr(3)[OF assms] .
  have r: "rows_of g = map snd ?D" by (simp add: rows_of_def d)
  have "mset (map snd ?D) = mset (map snd (filter has_year (data f)))"
    by simp
  also have "map snd (filter has_year (data f)) = filter (\<lambda>r. year r \<noteq> None) (rows_of f)"
    unfolding rows_of_def by (rule map_snd_filter_has_year)
  finally show "mset (rows_of g) = mset (filter (\<lambda>r. year r \<noteq> None) (rows_of f))"
    by (simp add: r)
  have "sorted (map ?k ?D)" by (rule sorted_sort_key)
  then have "sorted (map year_key ?D)" by (rule sorted_map_fst_of_pair)
  then show "sorted (map row_year (rows_of g))" by (simp add: r map_year_key)
  show "\<forall>r \<in> set (rows_of g). year r \<noteq> None"
    by (auto simp: r has_year_def)
  show "map fst (data g) = [0..<length (data g)]" by (simp add: d)
qed







subsection \<open>Stored columns\<close>

lemma store_column_cases:
  "store_column vs = Inr ws \<Longrightarrow> ws = vs \<or> ws = map to_float64 vs"
  by (auto simp: store_column_def split: scan_result.splits if_splits)

lemma cell_year_stored:
  "cell_year (year_cell y) = y"
  "cell_year (to_float64 (year_cell y)) = map_option round_double y"
  by (cases y; simp add: year_cell_def trunc_float_def)+

lemma to_float64_str: "to_float64 (PStr x) = PStr x"
  by simp

lemma store_rows_Inr:
  assumes "store_rows rs = Inr ts"
  shows "length ts = length rs"
    and "i < length rs \<Longrightarrow> iso3 (ts ! i) = iso3 (rs ! i)"
    and "i < length rs \<Longrightarrow>
           year (ts ! i) = year (rs ! i) \<or> year (ts ! i) = map_option round_double (year (rs ! i))"
    and "i < length rs \<Longrightarrow>
           indicator (ts ! i) = indicator (rs ! i)
           \<or> indicator (ts ! i) = to_float64 (indicator (rs ! i))"
    and "i < length rs \<Longrightarrow>
           obs_value (ts ! i) = obs_value (rs ! i)
           \<or> obs_value (ts ! i) = to_float64 (obs_value (rs ! i))"
proof -
  from assms obtain cs where cs: "store_column (map country rs) = Inr cs"
    by (cases "store_column (map country rs)") (simp_all add: store_rows_def)
  from assms cs obtain ids where ids: "store_column (map indicator rs) = Inr ids"
    by (cases "store_column (map indicator rs)") (simp_all add: store_rows_def)
  from assms cs ids obtain ys where ys: "store_column (map (\<lambda>r. year_cell (year r)) rs) = Inr ys"
    by (cases "store_column (map (\<lambda>r. year_cell (year r)) rs)") (simp_all add: store_rows_def)
  from assms cs ids ys obtain vs where vs: "store_column (map obs_value rs) = Inr vs"
    by (cases "store_column (map obs_value rs)") (simp_all add: store_rows_def)
  from assms cs ids ys vs
  have ts: "ts = map put_cells (zip rs (zip cs (zip ids (zip ys vs))))"
    by (simp add: store_rows_def)
  from store_column_cases[OF cs] have lc: "length cs = length rs" by auto
  from store_column_cases[OF ids] have li: "length ids = length rs" by auto
  from store_column_cases[OF ys] have ly: "length ys = length rs" by auto
  from store_column_cases[OF vs] have lv: "length vs = length rs" by auto
  show l: "length ts = length rs" by (simp add: ts lc li ly lv)
  have n: "ts ! i = put_cells (rs ! i, cs ! i, ids ! i, ys ! i, vs ! i)" if "i < length rs"
    using that by (simp add: ts lc li ly lv)
  show "iso3 (ts ! i) = iso3 (rs ! i)" if "i < length rs"
    using n[OF that] by (simp add: put_cells_def)
  show "year (ts ! i) = year (rs ! i) \<or> year (ts ! i) = map_option round_double (year (rs ! i))"
    if "i < length rs"
  proof -
    from store_column_cases[OF ys] that
    have "ys ! i = year_cell (year (rs ! i)) \<or> ys ! i = to_float64 (year_cell (year (rs ! i)))"
      by auto
    with n[OF that] show ?thesis by (auto simp: put_cells_def cell_year_stored)
  qed
  show "indicator (ts ! i) = indicator (rs ! i)
           \<or> indicator (ts ! i) = to_float64 (indicator (rs ! i))" if "i < length rs"
  proof -
    from store_column_cases[OF ids] that
    have "ids ! i = indicator (rs ! i) \<or> ids ! i = to_float64 (indicator (rs ! i))" by auto
    with n[OF that] show ?thesis by (auto simp: put_cells_def)
  qed
  show "obs_value (ts ! i) = obs_value (rs ! i)
           \<or> obs_value (ts ! i) = to_float64 (obs_value (rs ! i))" if "i < length rs"
  proof -
    from store_column_cases[OF vs] that
    have "vs ! i = obs_value (rs ! i) \<or> vs ! i = to_float64 (obs_value (rs ! i))" by auto
    with n[OF that] show ?thesis by (auto simp: put_cells_def)
  qed
qed

lemma store_rows_year_None:
  assumes "store_rows rs = Inr ts" and "i < length rs"
  shows "year (ts ! i) = None \<longleftrightarrow> year (rs ! i) = None"
  using store_rows_Inr(3)[OF assms] by (cases "year (rs ! i)") auto

lemma store_rows_Nil: "store_rows rs = Inr ts \<Longrightarrow> ts = [] \<longleftrightarrow> rs = []"
  using store_rows_Inr(1)[of rs ts] by auto

subsection \<open>The fetch\<close>

lemma make_row_Inr:
  assumes "make_row c ind item = Inr r"
  obtains kvs where "item = PDict kvs"
    and "iso3 r = upper c"
    and "nested_get kvs ''country'' ''value'' (PStr (upper c)) = Inr (country r)"
    and "nested_get kvs ''indicator'' ''id'' (PStr ind) = Inr (indicator r)"
    and "obs_value r = dict_get kvs ''value'' PNone"
    and "truthy (dict_get kvs ''date'' PNone) \<Longrightarrow>
           \<exists>n. py_int (dict_get kvs ''date'' PNone) = Inr n \<and> year r = Some n"
    and "\<not> truthy (dict_get kvs ''date'' PNone) \<Longrightarrow> year r = None"
proof -
  from assms obtain kvs where k: "item = PDict kvs"
    by (cases item) (simp_all add: make_row_def)
  from assms k obtain cn where cn: "nested_get kvs ''country'' ''value'' (PStr (upper c)) = Inr cn"
    by (cases "nested_get kvs ''country'' ''value'' (PStr (upper c))")
       (simp_all add: make_row_def Let_def)
  from assms k cn obtain i where i: "nested_get kvs ''indicator'' ''id'' (PStr ind) = Inr i"
    by (cases "nested_get kvs ''indicator'' ''id'' (PStr ind)")
       (simp_all add: make_row_def Let_def)
  let ?y = "dict_get kvs ''date'' PNone"
  from assms k cn i obtain yr where
    yr: "(if truthy ?y then map_sum id Some (py_int ?y) else Inr None) = Inr yr"
    by (cases "if truthy ?y then map_sum id Some (py_int ?y) else (Inr None :: error + int option)")
       (simp_all add: make_row_def Let_def)
  from assms k cn i yr have r: "r = \<lparr>iso3 = upper c, country = cn, indicator = i, year = yr,
                    obs_value = dict_get kvs ''value'' PNone\<rparr>"
    by (simp add: make_row_def Let_def)
  have a: "truthy ?y \<Longrightarrow> \<exists>n. py_int ?y = Inr n \<and> year r = Some n"
    using yr r by (cases "py_int ?y") auto
  have b: "\<not> truthy ?y \<Longrightarrow> year r = None"
    using yr r by auto
  show ?thesis
    using that[OF k _ _ _ _ a b] r cn i by simp
qed

lemma build_rows_Inr:
  "build_rows c ind items acc = Inr rs \<Longrightarrow>
     \<exists>rs'. rs = acc @ rs' \<and> list_all2 (\<lambda>item r. make_row c ind item = Inr r) items rs'"
proof (induction items arbitrary: acc)
  case Nil
  then show ?case by simp
next
  case (Cons item items)
  from Cons.prems obtain r where r: "make_row c ind item = Inr r"
    and b: "build_rows c ind items (acc @ [r]) = Inr rs"
    by (cases "make_row c ind item") simp_all
  from Cons.IH[OF b] obtain rs' where "rs = (acc @ [r]) @ rs'"
    and "list_all2 (\<lambda>item r. make_row c ind item = Inr r) items rs'" by blast
  then show ?case using r by (intro exI[of _ "r # rs'"]) simp
qed

lemma rows_to_frame_Inr:
  assumes "rows_to_frame alg c ind d = Inr f"
  obtains items rs ts where "py_iter d = Inr items"
    and "list_all2 (\<lambda>item r. make_row c ind item = Inr r) items rs"
    and "store_rows rs = Inr ts"
    and "normalize alg (frame_of_rows ts) = Inr f"
proof -
  from assms obtain items where it: "py_iter d = Inr items"
    by (cases "py_iter d") (simp_all add: rows_to_frame_def)
  with assms obtain rs where b: "build_rows c ind items [] = Inr rs"
    by (cases "build_rows c ind items []") (simp_all add: rows_to_frame_def)
  with assms it obtain df where df: "DataFrame rs = Inr df" and n: "normalize alg df = Inr f"
    by (cases "DataFrame rs") (simp_all add: rows_to_frame_def)
  from df obtain ts where ts: "store_rows rs = Inr ts" and d: "df = frame_of_rows ts"
    by (cases "store_rows rs") (simp_all add: DataFrame_def)
  from build_rows_Inr[OF b] have "list_all2 (\<lambda>item r. make_row c ind item = Inr r) items rs"
    by simp
  with it ts n d show ?thesis using that by blast
qed

lemma fetch_body_Inr:
  assumes "fetch_body alg resp c ind = Inr f"
  shows "f = empty_obs_frame \<or>
     (\<exists>s xs items rs ts. resp = Reply s (Some (PList xs)) \<and> 2 \<le> length xs \<and> xs ! 1 \<noteq> PNone
        \<and> py_iter (xs ! 1) = Inr items
        \<and> list_all2 (\<lambda>item r. make_row c ind item = Inr r) items rs
        \<and> store_rows rs = Inr ts
        \<and> normalize alg (frame_of_rows ts) = Inr f)"
proof (cases resp)
  case ConnectionFailed
  with assms show ?thesis by (simp add: fetch_body_def)
next
  case (Reply s body)
  show ?thesis
  proof (cases body)
    case None
    with assms Reply show ?thesis by (simp add: fetch_body_def split: if_splits)
  next
    case (Some d)
    show ?thesis
    proof (cases "no_data d")
      case True
      with assms Reply Some show ?thesis by (simp add: fetch_body_def split: if_splits)
    next
      case False
      then obtain xs where d: "d = PList xs" and l: "2 \<le> length xs" and n: "xs ! 1 \<noteq> PNone"
        by (cases d) (auto simp: no_data_def)
      from assms Reply Some False d have rf: "rows_to_frame alg c ind (xs ! 1) = Inr f"
        by (simp add: fetch_body_def split: if_splits)
      from rf Reply Some d l n show ?thesis
        by (elim rows_to_frame_Inr) blast
    qed
  qed
qed

lemma rows_of_frame_of_rows: "rows_of (frame_of_rows ts) = ts"
  by (simp add: rows_of_def frame_of_rows_def)

lemma rows_of_empty_obs_frame: "rows_of empty_obs_frame = []"
  by (simp add: rows_of_def empty_obs_frame_def)

lemma normalize_rows_set:
  assumes "normalize alg (frame_of_rows ts) = Inr f"
  shows "set (rows_of f) = {r \<in> set ts. year r \<noteq> None}"
proof -
  have "set (rows_of f) = set_mset (mset (rows_of f))" by simp
  also have "\<dots> = set_mset (mset (filter (\<lambda>r. year r \<noteq> None) ts))"
    using normalize_props(1)[OF assms] by (simp only: rows_of_frame_of_rows)
  finally show ?thesis by simp
qed

lemma normalize_rows_nonempty:
  assumes "normalize alg (frame_of_rows ts) = Inr f"
  shows "ts \<noteq> []" and "columns f = obs_columns"
  using normalize_Inr(1,2)[OF assms]
  by (auto simp: frame_of_rows_def split: if_splits)

lemma fetch_body_columns:
  assumes "fetch_body alg resp c ind = Inr f"
  shows "columns f = obs_columns"
  using fetch_body_Inr[OF assms]
  by (auto simp: empty_obs_frame_def normalize_rows_nonempty(2))

lemma fetch_body_iso3:
  assumes "fetch_body alg resp c ind = Inr f" and "r \<in> set (rows_of f)"
  shows "iso3 r = upper c"
  using fetch_body_Inr[OF assms(1)]
proof
  assume "f = empty_obs_frame"
  with assms(2) show ?thesis by (simp add: rows_of_empty_obs_frame)
next
  assume "\<exists>s xs items rs ts. resp = Reply s (Some (PList xs)) \<and> 2 \<le> length xs \<and> xs ! 1 \<noteq> PNone
        \<and> py_iter (xs ! 1) = Inr items
        \<and> list_all2 (\<lambda>item r. make_row c ind item = Inr r) items rs
        \<and> store_rows rs = Inr ts
        \<and> normalize alg (frame_of_rows ts) = Inr f"
  then obtain items rs ts where l: "list_all2 (\<lambda>item r. make_row c ind item = Inr r) items rs"
    and st: "store_rows rs = Inr ts"
    and n: "normalize alg (frame_of_rows ts) = Inr f" by blast
  from assms(2) normalize_rows_set[OF n] have "r \<in> set ts" by simp
  then obtain i where i: "i < length ts" "ts ! i = r" by (auto simp: in_set_conv_nth)
  with store_rows_Inr(1)[OF st] have il: "i < length rs" by simp
  with l have "make_row c ind (items ! i) = Inr (rs ! i)"
    by (auto simp: list_all2_conv_all_nth)
  then have "iso3 (rs ! i) = upper c" by (rule make_row_Inr)
  with store_rows_Inr(2)[OF st il] i show ?thesis by simp
qed

text \<open>
  Claim C1, as amended. When the fetch returns a table for a payload whose second element
  is a list of entries, every entry is a dict and gave one row, and the row of an entry,
  as pandas stores it, is in the table if and only if the entry's \<^verbatim>\<open>date\<close> is truthy:
  present, not null and not empty or zero. A truthy date was converted by \<^verbatim>\<open>int\<close> (a
  date that does not convert makes the whole fetch raise, so no table is returned), and
  the year stored is that integer or the 64-bit float nearest to it; the value of a row
  is the entry's \<^verbatim>\<open>value\<close>, null when it is missing, stored as it is or as a float.
\<close>

theorem fetch_rows_iff_truthy_date:
  assumes "fetch_body alg (Reply s (Some (PList (m # PList items # rest)))) c ind = Inr f"
  shows "\<exists>rs ts. length rs = length items \<and> store_rows rs = Inr ts
      \<and> length ts = length items
      \<and> mset (rows_of f) = mset (filter (\<lambda>r. year r \<noteq> None) ts)
      \<and> (\<forall>i < length items. \<exists>kvs. items ! i = PDict kvs
            \<and> make_row c ind (items ! i) = Inr (rs ! i)
            \<and> (ts ! i \<in> set (rows_of f) \<longleftrightarrow> truthy (dict_get kvs ''date'' PNone))
            \<and> (truthy (dict_get kvs ''date'' PNone) \<longrightarrow>
                 (\<exists>n. py_int (dict_get kvs ''date'' PNone) = Inr n
                      \<and> year (rs ! i) = Some n
                      \<and> (year (ts ! i) = Some n \<or> year (ts ! i) = Some (round_double n))))
            \<and> obs_value (rs ! i) = dict_get kvs ''value'' PNone
            \<and> (obs_value (ts ! i) = obs_value (rs ! i)
                 \<or> obs_value (ts ! i) = to_float64 (obs_value (rs ! i))))"
proof -
  have nz: "\<not> no_data (PList (m # PList items # rest))" by (simp add: no_data_def)
  from assms nz have rf: "rows_to_frame alg c ind (PList items) = Inr f"
    by (simp add: fetch_body_def split: if_splits)
  then obtain rs ts where l: "list_all2 (\<lambda>item r. make_row c ind item = Inr r) items rs"
    and st: "store_rows rs = Inr ts"
    and n: "normalize alg (frame_of_rows ts) = Inr f"
    by (elim rows_to_frame_Inr) simp
  from l have len: "length rs = length items" by (simp add: list_all2_lengthD)
  from store_rows_Inr(1)[OF st] len have lent: "length ts = length items" by simp
  have ms: "mset (rows_of f) = mset (filter (\<lambda>r. year r \<noteq> None) ts)"
    using normalize_props(1)[OF n] by (simp only: rows_of_frame_of_rows)
  have sf: "set (rows_of f) = {r \<in> set ts. year r \<noteq> None}"
    by (rule normalize_rows_set[OF n])
  have each: "\<exists>kvs. items ! i = PDict kvs
            \<and> make_row c ind (items ! i) = Inr (rs ! i)
            \<and> (ts ! i \<in> set (rows_of f) \<longleftrightarrow> truthy (dict_get kvs ''date'' PNone))
            \<and> (truthy (dict_get kvs ''date'' PNone) \<longrightarrow>
                 (\<exists>n. py_int (dict_get kvs ''date'' PNone) = Inr n
                      \<and> year (rs ! i) = Some n
                      \<and> (year (ts ! i) = Some n \<or> year (ts ! i) = Some (round_double n))))
            \<and> obs_value (rs ! i) = dict_get kvs ''value'' PNone
            \<and> (obs_value (ts ! i) = obs_value (rs ! i)
                 \<or> obs_value (ts ! i) = to_float64 (obs_value (rs ! i)))"
    if i: "i < length items" for i
  proof -
    from i len have il: "i < length rs" by simp
    from l i have mk: "make_row c ind (items ! i) = Inr (rs ! i)"
      by (simp add: list_all2_conv_all_nth)
    from i lent have mem: "ts ! i \<in> set ts" by simp
    note yr = store_rows_Inr(3)[OF st il]
    note yn = store_rows_year_None[OF st il]
    note ov = store_rows_Inr(5)[OF st il]
    from mk show ?thesis
    proof (rule make_row_Inr)
      fix kvs
      assume k: "items ! i = PDict kvs"
        and v: "obs_value (rs ! i) = dict_get kvs ''value'' PNone"
        and t: "truthy (dict_get kvs ''date'' PNone) \<Longrightarrow>
           \<exists>n. py_int (dict_get kvs ''date'' PNone) = Inr n \<and> year (rs ! i) = Some n"
        and u: "\<not> truthy (dict_get kvs ''date'' PNone) \<Longrightarrow> year (rs ! i) = None"
      have a: "ts ! i \<in> set (rows_of f) \<longleftrightarrow> truthy (dict_get kvs ''date'' PNone)"
        using sf mem t u yn by (cases "truthy (dict_get kvs ''date'' PNone)") auto
      have b: "truthy (dict_get kvs ''date'' PNone) \<longrightarrow>
                 (\<exists>n. py_int (dict_get kvs ''date'' PNone) = Inr n
                      \<and> year (rs ! i) = Some n
                      \<and> (year (ts ! i) = Some n \<or> year (ts ! i) = Some (round_double n)))"
        using t yr by auto
      from k mk a b v ov show ?thesis by blast
    qed
  qed
  from len st lent ms each show ?thesis by blast
qed

lemma ex_fetch:
  "fetch_body keep_ties
       (Reply 200 (Some (PList (PDict [(''page'', PInt 1)] # PList ex_items # []))))
       ''deu'' ''SP.POP.TOTL'' = Inr ex_table"
  by code_simp

theorem fetch_rows_iff_truthy_date_witness:
  "fetch_body keep_ties
       (Reply 200 (Some (PList (PDict [(''page'', PInt 1)] # PList ex_items # []))))
       ''deu'' ''SP.POP.TOTL'' = Inr ex_table
   \<and> (\<exists>rs ts. length rs = length ex_items \<and> store_rows rs = Inr ts
      \<and> length ts = length ex_items
      \<and> mset (rows_of ex_table) = mset (filter (\<lambda>r. year r \<noteq> None) ts)
      \<and> (\<forall>i < length ex_items. \<exists>kvs. ex_items ! i = PDict kvs
            \<and> make_row ''deu'' ''SP.POP.TOTL'' (ex_items ! i) = Inr (rs ! i)
            \<and> (ts ! i \<in> set (rows_of ex_table) \<longleftrightarrow> truthy (dict_get kvs ''date'' PNone))
            \<and> (truthy (dict_get kvs ''date'' PNone) \<longrightarrow>
                 (\<exists>n. py_int (dict_get kvs ''date'' PNone) = Inr n
                      \<and> year (rs ! i) = Some n
                      \<and> (year (ts ! i) = Some n \<or> year (ts ! i) = Some (round_double n))))
            \<and> obs_value (rs ! i) = dict_get kvs ''value'' PNone
            \<and> (obs_value (ts ! i) = obs_value (rs ! i)
                 \<or> obs_value (ts ! i) = to_float64 (obs_value (rs ! i)))))"
  using ex_fetch fetch_rows_iff_truthy_date[OF ex_fetch] by (rule conjI)

text \<open>
  Claim C1 as it is written fails twice. An entry whose date is the empty string has a
  date that is not null, and still gives no row; an entry whose date is not a number is
  not dropped: the fetch raises and returns no table at all.
\<close>

theorem empty_date_dropped_counterexample:
  "fetch_body keep_ties
       (Reply 200 (Some (ex_payload [PDict [(''date'', PStr ''''), (''value'', PInt 80)],
                                     ex_entry ''SP.POP.TOTL'' (PStr ''2020'')])))
       ''deu'' ''SP.POP.TOTL''
     = Inr \<lparr>columns = obs_columns, data = [(0, ex_row 2020)]\<rparr>
   \<and> dict_get [(''date'', PStr ''''), (''value'', PInt 80)] ''date'' PNone = PStr ''''
   \<and> PStr '''' \<noteq> PNone
   \<and> fetch_body keep_ties
       (Reply 200 (Some (ex_payload [PDict [(''date'', PStr ''2020Q1''), (''value'', PInt 80)],
                                     ex_entry ''SP.POP.TOTL'' (PStr ''2020'')])))
       ''deu'' ''SP.POP.TOTL''
     = Inl ValueError"
  by code_simp

text \<open>
  Dates that \<^verbatim>\<open>int\<close> refuses: a separator 28 before the digits, and more digits than
  the limit. A year beyond \<open>2 ^ 53\<close> in a column with a null is stored rounded.
\<close>

lemma ex_int_refused:
  "py_int (PStr (CHR 0x1C # ''2020'')) = Inl ValueError"
  "py_int (PStr '' 2_020 '') = Inr 2020"
  by code_simp+

lemma int_of_str_limit:
  assumes "max_str_digits < length (filter is_digit (strip_int s))"
  shows "py_int (PStr s) = Inl ValueError"
proof (cases "strip_int s")
  case Nil
  with assms show ?thesis by simp
next
  case (Cons c cs)
  with assms show ?thesis by (simp add: int_of_str_def)
qed

lemma ex_year_rounded:
  "store_column [PInt (2 ^ 53 + 1), PNone] = Inr [PFloat (Finite (2 ^ 53) 0), PFloat NaN]"
  "store_column [PInt (2 ^ 53 + 1), PInt 2020] = Inr [PInt (2 ^ 53 + 1), PInt 2020]"
  by code_simp+

lemma make_row_not_dict:
  "make_row c ind (PStr s) = Inl AttributeError"
  by (simp add: make_row_def)

lemma py_iter_items:
  assumes "py_iter d = Inr items" and "list_all2 (\<lambda>item r. make_row c ind item = Inr r) items rs"
    and "rs \<noteq> []"
  shows "d = PList items"
proof (cases d)
  case (PStr s)
  with assms(1) have "items = map (\<lambda>c. PStr [c]) s" by simp
  with assms(2,3) show ?thesis
    by (cases s) (auto simp: list_all2_Cons1 make_row_not_dict)
next
  case (PDict kvs)
  with assms(1) have "items = map (\<lambda>kv. PStr (fst kv)) kvs" by simp
  with assms(2,3) show ?thesis
    by (cases kvs) (auto simp: list_all2_Cons1 make_row_not_dict)
qed (use assms(1) in simp_all)

text \<open>
  Claim C3 as it is written fails: the indicator of a row is what the service reported
  for the entry, so one table can hold two indicators, one of them not the requested
  code.
\<close>

theorem echoed_indicator_counterexample:
  "fetch_body keep_ties
       (Reply 200 (Some (ex_payload [ex_entry ''NY.GDP.MKTP.CD'' (PStr ''2020''),
                                     ex_entry ''SP.POP.TOTL'' (PStr ''2021'')])))
       ''deu'' ''SP.POP.TOTL''
     = Inr \<lparr>columns = obs_columns,
            data = [(0, (ex_row 2020)\<lparr>indicator := PStr ''NY.GDP.MKTP.CD''\<rparr>), (1, ex_row 2021)]\<rparr>
   \<and> indicator ((ex_row 2020)\<lparr>indicator := PStr ''NY.GDP.MKTP.CD''\<rparr>) \<noteq> PStr ''SP.POP.TOTL''
   \<and> indicator ((ex_row 2020)\<lparr>indicator := PStr ''NY.GDP.MKTP.CD''\<rparr>) \<noteq> indicator (ex_row 2021)"
  by code_simp

text \<open>
  Claim C3, as amended. Every row of the table of one fetch has the requested country
  code in upper case as its \<^verbatim>\<open>iso3\<close>. Each row is the stored row of one entry of the
  payload, and its indicator is what that entry reported as the \<^verbatim>\<open>id\<close> of its
  indicator, or the requested indicator code when that entry reports none, as pandas
  stores it: unchanged when it is a string.
\<close>

theorem fetch_rows_iso3_indicator:
  assumes "fetch_body alg resp c ind = Inr f" and "r \<in> set (rows_of f)"
  shows "iso3 r = upper c
     \<and> (\<exists>s m items rest rs ts i kvs.
           resp = Reply s (Some (PList (m # PList items # rest)))
           \<and> list_all2 (\<lambda>item r. make_row c ind item = Inr r) items rs
           \<and> store_rows rs = Inr ts
           \<and> i < length items \<and> r = ts ! i
           \<and> items ! i = PDict kvs
           \<and> make_row c ind (PDict kvs) = Inr (rs ! i)
           \<and> nested_get kvs ''indicator'' ''id'' (PStr ind) = Inr (indicator (rs ! i))
           \<and> (indicator r = indicator (rs ! i)
                \<or> indicator r = to_float64 (indicator (rs ! i)))
           \<and> (\<forall>x. indicator (rs ! i) = PStr x \<longrightarrow> indicator r = PStr x))"
proof
  show "iso3 r = upper c" by (rule fetch_body_iso3[OF assms])
  from fetch_body_Inr[OF assms(1)] assms(2)
  obtain s xs items rs ts where resp: "resp = Reply s (Some (PList xs))"
    and len: "2 \<le> length xs"
    and it: "py_iter (xs ! 1) = Inr items"
    and l: "list_all2 (\<lambda>item r. make_row c ind item = Inr r) items rs"
    and st: "store_rows rs = Inr ts"
    and n: "normalize alg (frame_of_rows ts) = Inr f"
    by (auto simp: rows_of_empty_obs_frame)
  from assms(2) normalize_rows_set[OF n] have mem: "r \<in> set ts" by simp
  from normalize_rows_nonempty(1)[OF n] store_rows_Nil[OF st] have "rs \<noteq> []" by simp
  from py_iter_items[OF it l this] have x1: "xs ! 1 = PList items" .
  from len obtain m rest where xs: "xs = m # PList items # rest"
    using x1 by (cases xs; cases "tl xs") auto
  from mem obtain i where i: "i < length ts" "ts ! i = r" by (auto simp: in_set_conv_nth)
  with store_rows_Inr(1)[OF st] have ir: "i < length rs" by simp
  with l have mk: "make_row c ind (items ! i) = Inr (rs ! i)" and il: "i < length items"
    by (auto simp: list_all2_conv_all_nth)
  from mk obtain kvs where k: "items ! i = PDict kvs"
    and ni: "nested_get kvs ''indicator'' ''id'' (PStr ind) = Inr (indicator (rs ! i))"
    by (rule make_row_Inr)
  from store_rows_Inr(4)[OF st ir] i
  have d: "indicator r = indicator (rs ! i) \<or> indicator r = to_float64 (indicator (rs ! i))"
    by simp
  then have e: "\<forall>x. indicator (rs ! i) = PStr x \<longrightarrow> indicator r = PStr x" by auto
  from mk k have mk': "make_row c ind (PDict kvs) = Inr (rs ! i)" by simp
  from resp xs l st il i(2) k mk' ni d e
  show "\<exists>s m items rest rs ts i kvs.
           resp = Reply s (Some (PList (m # PList items # rest)))
           \<and> list_all2 (\<lambda>item r. make_row c ind item = Inr r) items rs
           \<and> store_rows rs = Inr ts
           \<and> i < length items \<and> r = ts ! i
           \<and> items ! i = PDict kvs
           \<and> make_row c ind (PDict kvs) = Inr (rs ! i)
           \<and> nested_get kvs ''indicator'' ''id'' (PStr ind) = Inr (indicator (rs ! i))
           \<and> (indicator r = indicator (rs ! i)
                \<or> indicator r = to_float64 (indicator (rs ! i)))
           \<and> (\<forall>x. indicator (rs ! i) = PStr x \<longrightarrow> indicator r = PStr x)"
    by blast
qed

theorem fetch_rows_iso3_indicator_witness:
  "fetch_body keep_ties
       (Reply 200 (Some (PList (PDict [(''page'', PInt 1)] # PList ex_items # []))))
       ''deu'' ''SP.POP.TOTL'' = Inr ex_table
   \<and> ex_row 2020 \<in> set (rows_of ex_table)
   \<and> iso3 (ex_row 2020) = upper ''deu''
   \<and> (\<exists>s m items rest rs ts i kvs.
           Reply 200 (Some (PList (PDict [(''page'', PInt 1)] # PList ex_items # [])))
             = Reply s (Some (PList (m # PList items # rest)))
           \<and> list_all2 (\<lambda>item r. make_row ''deu'' ''SP.POP.TOTL'' item = Inr r) items rs
           \<and> store_rows rs = Inr ts
           \<and> i < length items \<and> ex_row 2020 = ts ! i
           \<and> items ! i = PDict kvs
           \<and> make_row ''deu'' ''SP.POP.TOTL'' (PDict kvs) = Inr (rs ! i)
           \<and> nested_get kvs ''indicator'' ''id'' (PStr ''SP.POP.TOTL'')
               = Inr (indicator (rs ! i))
           \<and> (indicator (ex_row 2020) = indicator (rs ! i)
                \<or> indicator (ex_row 2020) = to_float64 (indicator (rs ! i)))
           \<and> (\<forall>x. indicator (rs ! i) = PStr x \<longrightarrow> indicator (ex_row 2020) = PStr x))"
proof -
  have m: "ex_row 2020 \<in> set (rows_of ex_table)"
    by (simp add: rows_of_def ex_table_def)
  note t = fetch_rows_iso3_indicator[OF ex_fetch m]
  show ?thesis
    by (intro conjI ex_fetch m t[THEN conjunct1] t[THEN conjunct2])
qed

text \<open>
  Claim C7. The rows of the table of a fetch all have a year and are in ascending order
  of it, with the index labels 0, 1, 2, ...; the table is determined by the country
  code, the indicator code and the answer of the service: whenever the memoised
  function computes with that answer it returns this table, whatever the years asked
  for and whatever the state.
\<close>

theorem fetch_sorted_by_year:
  assumes "fetch_body alg resp c ind = Inr f"
  shows "(\<exists>ys. map year (rows_of f) = map Some ys \<and> sorted ys)
     \<and> map fst (data f) = [0..<length (data f)]
     \<and> (\<forall>net st s e. cache st (c, ind, s, e) = None
            \<and> net (length (requests st)) (c, ind, s, e) = resp
          \<longrightarrow> fst (fetch_world_bank alg net st (c, ind, s, e)) = Inr f)"
proof (intro conjI)
  from fetch_body_Inr[OF assms]
  have "(\<forall>r \<in> set (rows_of f). year r \<noteq> None) \<and> sorted (map row_year (rows_of f))
      \<and> map fst (data f) = [0..<length (data f)]"
  proof
    assume "f = empty_obs_frame"
    then show ?thesis by (simp add: rows_of_def empty_obs_frame_def)
  next
    assume "\<exists>s xs items rs ts. resp = Reply s (Some (PList xs)) \<and> 2 \<le> length xs
        \<and> xs ! 1 \<noteq> PNone
        \<and> py_iter (xs ! 1) = Inr items
        \<and> list_all2 (\<lambda>item r. make_row c ind item = Inr r) items rs
        \<and> store_rows rs = Inr ts
        \<and> normalize alg (frame_of_rows ts) = Inr f"
    then obtain ts where n: "normalize alg (frame_of_rows ts) = Inr f" by blast
    from normalize_props(2,3,4)[OF n] show ?thesis by simp
  qed
  then have a: "\<forall>r \<in> set (rows_of f). year r \<noteq> None"
    and b: "sorted (map row_year (rows_of f))"
    and c: "map fst (data f) = [0..<length (data f)]" by simp_all
  from a have "map year (rows_of f) = map Some (map row_year (rows_of f))"
    by (auto simp: row_year_def)
  with b show "\<exists>ys. map year (rows_of f) = map Some ys \<and> sorted ys" by blast
  show "map fst (data f) = [0..<length (data f)]" by (rule c)
  show "\<forall>net st s e. cache st (c, ind, s, e) = None
            \<and> net (length (requests st)) (c, ind, s, e) = resp
          \<longrightarrow> fst (fetch_world_bank alg net st (c, ind, s, e)) = Inr f"
    using assms by (auto simp: fetch_world_bank_def Let_def)
qed

lemma ex_service_answer:
  "cache ex_state (''deu'', ''SP.POP.TOTL'', 2000, 2024) = None
   \<and> ex_service (length (requests ex_state)) (''deu'', ''SP.POP.TOTL'', 2000, 2024)
       = Reply 200 (Some (PList (PDict [(''page'', PInt 1)] # PList ex_items # [])))"
  by (simp add: ex_state_def ex_service_def)

theorem fetch_sorted_by_year_witness:
  "fetch_body keep_ties (Reply 200 (Some (PList (PDict [(''page'', PInt 1)] # PList ex_items # []))))
       ''deu'' ''SP.POP.TOTL'' = Inr ex_table
   \<and> (\<exists>ys. map year (rows_of ex_table) = map Some ys \<and> sorted ys)
   \<and> map fst (data ex_table) = [0..<length (data ex_table)]
   \<and> fst (fetch_world_bank keep_ties ex_service ex_state (''deu'', ''SP.POP.TOTL'', 2000, 2024))
       = Inr ex_table"
proof -
  note t = fetch_sorted_by_year[OF ex_fetch]
  from t[THEN conjunct2, THEN conjunct2, THEN spec[of _ ex_service],
      THEN spec[of _ ex_state], THEN spec[of _ 2000], THEN spec[of _ 2024], THEN mp,
      OF ex_service_answer]
  have "fst (fetch_world_bank keep_ties ex_service ex_state (''deu'', ''SP.POP.TOTL'', 2000, 2024))
       = Inr ex_table" .
  with ex_fetch t[THEN conjunct1] t[THEN conjunct2, THEN conjunct1] show ?thesis
    by (intro conjI)
qed

subsection \<open>The loop\<close>


lemma warnings_of_append: "warnings_of (xs @ ys) = warnings_of xs @ warnings_of ys"
  by (induction xs rule: warnings_of.induct) simp_all

lemma map_fst_outcomes: "map fst (outcomes alg net ind s e cs st) = cs"
  by (induction cs arbitrary: st) (auto split: prod.splits)


lemma fetch_loop_outcomes:
  "fst (fetch_loop alg net ind s e cs frames shown st)
     = frames @ tables_of (outcomes alg net ind s e cs st)
   \<and> fst (snd (fetch_loop alg net ind s e cs frames shown st))
     = shown @ warnings_of (outcomes alg net ind s e cs st)"
proof (induction cs arbitrary: frames shown st)
  case Nil
  show ?case by simp
next
  case (Cons c cs)
  obtain r st' where f: "fetch_world_bank alg net st (c, ind, s, e) = (r, st')"
    by (cases "fetch_world_bank alg net st (c, ind, s, e)")
  show ?case
  proof (cases r)
    case (Inl err)
    with f Cons.IH[of frames "shown @ [Fetch_warning c err]" st'] show ?thesis by simp
  next
    case (Inr t)
    with f Cons.IH[of "frames @ [t]" shown st'] show ?thesis by simp
  qed
qed

lemma load_frames_outcomes:
  "fst (load_frames alg net st inp) = tables_of (run_outcomes alg net st inp)"
  "fst (snd (load_frames alg net st inp)) = warnings_of (run_outcomes alg net st inp)"
  using fetch_loop_outcomes[of alg net "indicator_code inp" "start_year inp" "end_year inp"
      "parse_countries (countries_text inp)" "[]" "[]" st]
  by (simp_all add: load_frames_def run_outcomes_def)

lemma rows_of_pd_concat: "rows_of (pd_concat fs) = concat (map rows_of fs)"
  by (simp add: pd_concat_def rows_of_def[abs_def])

lemma rows_of_combine: "rows_of (combine fs) = concat (map rows_of fs)"
  by (simp add: combine_def rows_of_pd_concat) (simp add: rows_of_def empty_frame_def)

lemma rows_of_combined:
  "rows_of (combined alg net st inp) = concat (map rows_of (tables_of (run_outcomes alg net st inp)))"
  by (simp add: combined_def rows_of_combine load_frames_outcomes)

lemma warnings_of_mem:
  "Fetch_warning c err \<in> set (warnings_of os) \<longleftrightarrow> (c, Inl err) \<in> set os"
  by (induction os rule: warnings_of.induct) auto

lemma tables_of_mem:
  "f \<in> set (tables_of os) \<longleftrightarrow> (\<exists>c. (c, Inr f) \<in> set os)"
  by (induction os rule: tables_of.induct) auto

lemma run_page_valid:
  assumes "run inp" and "parse_countries (countries_text inp) \<noteq> []"
    and "length (parse_countries (countries_text inp)) \<le> 15"
  shows "fst (run_page alg net st inp)
     = warnings_of (run_outcomes alg net st inp)
       @ (if df_empty (combined alg net st inp) then [No_data_warning]
          else render (combined alg net st inp) inp)"
proof -
  obtain frames shown st' where l: "load_frames alg net st inp = (frames, shown, st')"
    by (cases "load_frames alg net st inp") auto
  from l have s: "shown = warnings_of (run_outcomes alg net st inp)"
    using load_frames_outcomes(2)[of alg net st inp] by simp
  from l have c: "combined alg net st inp = combine frames" by (simp add: combined_def)
  from assms l show ?thesis
    by (simp add: run_page_def Let_def s c)
qed

subsection \<open>The memo table\<close>

lemma fetch_world_bank_hit:
  "cache st q = Some f \<Longrightarrow> fetch_world_bank alg net st q = (Inr f, st)"
  by (simp add: fetch_world_bank_def)

lemma fetch_world_bank_miss:
  assumes "cache st q = None" and "fetch_world_bank alg net st q = (r, st')"
  shows "r = fetch_body alg (net (length (requests st)) q) (fst q) (fst (snd q))"
    and "requests st' = requests st @ [q]"
    and "cache st' = (case r of Inr f \<Rightarrow> (cache st)(q \<mapsto> f) | Inl err \<Rightarrow> cache st)"
  using assms
  by (auto simp: fetch_world_bank_def Let_def split: sum.splits)



lemma fetch_result_body:
  assumes "cache_ok alg st" and "fetch_world_bank alg net st q = (Inr f, st')"
  shows "\<exists>resp. fetch_body alg resp (fst q) (fst (snd q)) = Inr f"
proof (cases "cache st q")
  case None
  from fetch_world_bank_miss(1)[OF None assms(2)] show ?thesis by metis
next
  case (Some g)
  with assms(2) have "g = f" by (simp add: fetch_world_bank_hit)
  with Some assms(1) show ?thesis unfolding cache_ok_def by blast
qed

lemma cache_ok_step:
  assumes "cache_ok alg st" and "fetch_world_bank alg net st q = (r, st')"
  shows "cache_ok alg st'"
proof (cases "cache st q")
  case None
  show ?thesis
  proof (cases r)
    case (Inl err)
    with fetch_world_bank_miss(3)[OF None assms(2)] assms(1) show ?thesis
      by (simp add: cache_ok_def)
  next
    case (Inr f)
    from fetch_world_bank_miss(1)[OF None assms(2)] Inr
    have b: "fetch_body alg (net (length (requests st)) q) (fst q) (fst (snd q)) = Inr f"
      by simp
    from fetch_world_bank_miss(3)[OF None assms(2)] Inr
    have c: "cache st' = (cache st)(q \<mapsto> f)" by simp
    show ?thesis
      unfolding cache_ok_def
    proof (intro allI impI)
      fix q' g
      assume "cache st' q' = Some g"
      with c have "(q' = q \<and> g = f) \<or> cache st q' = Some g" by (auto split: if_splits)
      with b assms(1) show "\<exists>resp. fetch_body alg resp (fst q') (fst (snd q')) = Inr g"
        unfolding cache_ok_def by blast
    qed
  qed
next
  case (Some g)
  with assms show ?thesis by (simp add: fetch_world_bank_hit)
qed

lemma cache_ok_empty: "cache_ok alg \<lparr>cache = Map.empty, requests = rq\<rparr>"
  by (simp add: cache_ok_def)

lemma outcomes_fetch_body:
  assumes "cache_ok alg st" and "(c, Inr f) \<in> set (outcomes alg net ind s e cs st)"
  shows "c \<in> set cs \<and> (\<exists>resp. fetch_body alg resp c ind = Inr f)"
  using assms
proof (induction cs arbitrary: st)
  case Nil
  then show ?case by simp
next
  case (Cons a cs)
  obtain r st' where f: "fetch_world_bank alg net st (a, ind, s, e) = (r, st')"
    by (cases "fetch_world_bank alg net st (a, ind, s, e)")
  from Cons.prems(2) f
  consider "c = a" "r = Inr f" | "(c, Inr f) \<in> set (outcomes alg net ind s e cs st')"
    by auto
  then show ?case
  proof cases
    case 1
    with f fetch_result_body[OF Cons.prems(1), of net "(a, ind, s, e)" f st'] show ?thesis
      by simp
  next
    case 2
    from Cons.IH[OF cache_ok_step[OF Cons.prems(1) f] 2] show ?thesis by simp
  qed
qed


subsection \<open>The run\<close>

text \<open>
  Claim C5. In a run whose parsed country list is empty or longer than 15 codes, the
  page shows the one blocking error message and stops: the state is returned as it was,
  so no request was sent to the service and nothing was fetched or stored.
\<close>

theorem invalid_input_halts:
  assumes "run inp"
    and "parse_countries (countries_text inp) = []
         \<or> 15 < length (parse_countries (countries_text inp))"
  shows "run_page alg net st inp
      = ([if parse_countries (countries_text inp) = [] then Error_no_country
          else Error_too_many], st)
     \<and> requests (snd (run_page alg net st inp)) = requests st
     \<and> cache (snd (run_page alg net st inp)) = cache st"
  using assms by (auto simp: run_page_def Let_def)

text \<open>
  Claim C4. In a run with 1 to 15 countries, every country of the list is fetched in
  turn, whatever the earlier fetches did; each fetch that raised is shown as a warning
  naming its country, the warnings come before anything else the run shows, and the
  rows of the combined table are exactly the rows of the tables of the fetches that
  returned, in the order of the list.
\<close>

theorem failed_fetch_does_not_abort:
  assumes "run inp"
    and "parse_countries (countries_text inp) \<noteq> []"
    and "length (parse_countries (countries_text inp)) \<le> 15"
  shows "map fst (run_outcomes alg net st inp) = parse_countries (countries_text inp)
     \<and> fst (run_page alg net st inp)
         = warnings_of (run_outcomes alg net st inp)
           @ (if df_empty (combined alg net st inp) then [No_data_warning]
              else render (combined alg net st inp) inp)
     \<and> (\<forall>c err. (c, Inl err) \<in> set (run_outcomes alg net st inp)
           \<longrightarrow> Fetch_warning c err \<in> set (fst (run_page alg net st inp)))
     \<and> rows_of (combined alg net st inp)
         = concat (map rows_of (tables_of (run_outcomes alg net st inp)))"
proof (intro conjI)
  show "map fst (run_outcomes alg net st inp) = parse_countries (countries_text inp)"
    by (simp add: run_outcomes_def map_fst_outcomes)
  show p: "fst (run_page alg net st inp)
         = warnings_of (run_outcomes alg net st inp)
           @ (if df_empty (combined alg net st inp) then [No_data_warning]
              else render (combined alg net st inp) inp)"
    by (rule run_page_valid[OF assms])
  show "\<forall>c err. (c, Inl err) \<in> set (run_outcomes alg net st inp)
           \<longrightarrow> Fetch_warning c err \<in> set (fst (run_page alg net st inp))"
    by (simp add: p warnings_of_mem)
  show "rows_of (combined alg net st inp)
         = concat (map rows_of (tables_of (run_outcomes alg net st inp)))"
    by (rule rows_of_combined)
qed

lemma df_empty_fetched:
  assumes "fetch_body alg resp c ind = Inr f"
  shows "df_empty f \<longleftrightarrow> data f = []"
  using fetch_body_columns[OF assms] by (simp add: df_empty_def obs_columns_def)

lemma df_empty_combine:
  assumes "\<forall>f \<in> set fs. data f = []"
  shows "df_empty (combine fs)"
proof (cases "fs = []")
  case True
  then show ?thesis by (simp add: combine_def df_empty_def empty_frame_def)
next
  case False
  from assms have c: "concat (map (\<lambda>f. map snd (data f)) fs) = []" by simp
  from False show ?thesis by (simp add: combine_def df_empty_def pd_concat_def c)
qed

text \<open>
  Claim C6. In a run with 1 to 15 countries in which every fetch raised or returned an
  empty table, the combined table is empty, the last thing shown is the message that no
  data was returned, and no chart, table view or download button is shown.
\<close>

theorem all_failed_or_empty_halts:
  assumes "run inp"
    and "parse_countries (countries_text inp) \<noteq> []"
    and "length (parse_countries (countries_text inp)) \<le> 15"
    and "cache_ok alg st"
    and "\<forall>c f. (c, Inr f) \<in> set (run_outcomes alg net st inp) \<longrightarrow> df_empty f"
  shows "df_empty (combined alg net st inp)
     \<and> fst (run_page alg net st inp)
         = warnings_of (run_outcomes alg net st inp) @ [No_data_warning]
     \<and> (\<forall>df i s e. Chart df \<notin> set (fst (run_page alg net st inp))
           \<and> Dataframe df \<notin> set (fst (run_page alg net st inp))
           \<and> Download_button df i s e \<notin> set (fst (run_page alg net st inp)))"
proof -
  have "data f = []" if "f \<in> set (tables_of (run_outcomes alg net st inp))" for f
  proof -
    from that obtain c where m: "(c, Inr f) \<in> set (run_outcomes alg net st inp)"
      by (auto simp: tables_of_mem)
    with assms(5) have e: "df_empty f" by blast
    from m have "(c, Inr f) \<in> set (outcomes alg net (indicator_code inp) (start_year inp)
          (end_year inp) (parse_countries (countries_text inp)) st)"
      by (simp add: run_outcomes_def)
    from outcomes_fetch_body[OF assms(4) this] obtain resp
      where "fetch_body alg resp c (indicator_code inp) = Inr f" by blast
    from df_empty_fetched[OF this] e show ?thesis by simp
  qed
  then have d: "df_empty (combined alg net st inp)"
    by (simp add: combined_def load_frames_outcomes df_empty_combine)
  with run_page_valid[OF assms(1-3), of alg net st]
  have p: "fst (run_page alg net st inp)
         = warnings_of (run_outcomes alg net st inp) @ [No_data_warning]" by simp
  have "\<forall>df i s e. Chart df \<notin> set (fst (run_page alg net st inp))
           \<and> Dataframe df \<notin> set (fst (run_page alg net st inp))
           \<and> Download_button df i s e \<notin> set (fst (run_page alg net st inp))"
  proof -
    have "\<forall>ev \<in> set (warnings_of os). \<exists>c err. ev = Fetch_warning c err" for os
      by (induction os rule: warnings_of.induct) auto
    then show ?thesis unfolding p by fastforce
  qed
  with d p show ?thesis by blast
qed


lemma ex_run_valid:
  "run (ex_inputs text)"
  by (simp add: ex_inputs_def)

theorem invalid_input_halts_witness:
  "(run (ex_inputs '' , '')
    \<and> (parse_countries (countries_text (ex_inputs '' , '')) = []
         \<or> 15 < length (parse_countries (countries_text (ex_inputs '' , ''))))
    \<and> run_page keep_ties ex_service ex_state (ex_inputs '' , '')
      = ([if parse_countries (countries_text (ex_inputs '' , '')) = [] then Error_no_country
          else Error_too_many], ex_state)
    \<and> requests (snd (run_page keep_ties ex_service ex_state (ex_inputs '' , ''))) = requests ex_state
    \<and> cache (snd (run_page keep_ties ex_service ex_state (ex_inputs '' , ''))) = cache ex_state)
   \<and> (run (ex_inputs ''a,b,c,d,e,f,g,h,i,j,k,l,m,n,o,p'')
    \<and> (parse_countries (countries_text (ex_inputs ''a,b,c,d,e,f,g,h,i,j,k,l,m,n,o,p'')) = []
         \<or> 15 < length (parse_countries
                        (countries_text (ex_inputs ''a,b,c,d,e,f,g,h,i,j,k,l,m,n,o,p''))))
    \<and> run_page keep_ties ex_service ex_state (ex_inputs ''a,b,c,d,e,f,g,h,i,j,k,l,m,n,o,p'')
      = ([if parse_countries (countries_text (ex_inputs ''a,b,c,d,e,f,g,h,i,j,k,l,m,n,o,p'')) = []
          then Error_no_country else Error_too_many], ex_state))"
proof -
  have a: "parse_countries (countries_text (ex_inputs '' , '')) = []
         \<or> 15 < length (parse_countries (countries_text (ex_inputs '' , '')))"
    by code_simp
  have b: "parse_countries (countries_text (ex_inputs ''a,b,c,d,e,f,g,h,i,j,k,l,m,n,o,p'')) = []
         \<or> 15 < length (parse_countries
                        (countries_text (ex_inputs ''a,b,c,d,e,f,g,h,i,j,k,l,m,n,o,p'')))"
    by code_simp
  from invalid_input_halts[OF ex_run_valid a, of keep_ties ex_service ex_state]
    invalid_input_halts[OF ex_run_valid b, of keep_ties ex_service ex_state]
    ex_run_valid a b
  show ?thesis by blast
qed

lemma ex_countries:
  "parse_countries (countries_text (ex_inputs ''deu, bra ,usa'')) = [''DEU'', ''BRA'', ''USA'']"
  by code_simp

lemma ex_countries_valid:
  "parse_countries (countries_text (ex_inputs ''deu, bra ,usa'')) \<noteq> []"
  "length (parse_countries (countries_text (ex_inputs ''deu, bra ,usa''))) \<le> 15"
  by (simp_all add: ex_countries)

text \<open>
  The scenario of three countries of which one cannot be fetched: what the calls
  returned and what the run shows.
\<close>

lemma ex_outcomes:
  "run_outcomes keep_ties ex_service ex_state (ex_inputs ''deu, bra ,usa'')
     = [(''DEU'', Inr ex_table), (''BRA'', Inl RequestException),
        (''USA'', Inr (ex_table\<lparr>data := [(0, (ex_row 2020)\<lparr>iso3 := ''USA''\<rparr>),
                                          (1, (ex_row 2021)\<lparr>iso3 := ''USA''\<rparr>)]\<rparr>))]"
  by code_simp

lemma ex_shown:
  "fst (run_page keep_ties ex_service ex_state (ex_inputs ''deu, bra ,usa''))
     = Fetch_warning ''BRA'' RequestException
       # render \<lparr>columns = obs_columns,
                 data = [(0, ex_row 2020), (1, ex_row 2021),
                         (2, (ex_row 2020)\<lparr>iso3 := ''USA''\<rparr>),
                         (3, (ex_row 2021)\<lparr>iso3 := ''USA''\<rparr>)]\<rparr>
           (ex_inputs ''deu, bra ,usa'')"
  by code_simp

theorem failed_fetch_does_not_abort_witness:
  "run (ex_inputs ''deu, bra ,usa'')
   \<and> parse_countries (countries_text (ex_inputs ''deu, bra ,usa'')) \<noteq> []
   \<and> length (parse_countries (countries_text (ex_inputs ''deu, bra ,usa''))) \<le> 15
   \<and> map fst (run_outcomes keep_ties ex_service ex_state (ex_inputs ''deu, bra ,usa''))
       = parse_countries (countries_text (ex_inputs ''deu, bra ,usa''))
   \<and> fst (run_page keep_ties ex_service ex_state (ex_inputs ''deu, bra ,usa''))
       = warnings_of (run_outcomes keep_ties ex_service ex_state (ex_inputs ''deu, bra ,usa''))
         @ (if df_empty (combined keep_ties ex_service ex_state (ex_inputs ''deu, bra ,usa''))
            then [No_data_warning]
            else render (combined keep_ties ex_service ex_state (ex_inputs ''deu, bra ,usa''))
                   (ex_inputs ''deu, bra ,usa''))
   \<and> (''BRA'', Inl RequestException)
       \<in> set (run_outcomes keep_ties ex_service ex_state (ex_inputs ''deu, bra ,usa''))
   \<and> Fetch_warning ''BRA'' RequestException
       \<in> set (fst (run_page keep_ties ex_service ex_state (ex_inputs ''deu, bra ,usa'')))
   \<and> rows_of (combined keep_ties ex_service ex_state (ex_inputs ''deu, bra ,usa''))
       = concat (map rows_of
           (tables_of (run_outcomes keep_ties ex_service ex_state (ex_inputs ''deu, bra ,usa''))))"
proof -
  note t = failed_fetch_does_not_abort[OF ex_run_valid ex_countries_valid,
      of keep_ties ex_service ex_state]
  have o: "(''BRA'', Inl RequestException)
      \<in> set (run_outcomes keep_ties ex_service ex_state (ex_inputs ''deu, bra ,usa''))"
    unfolding ex_outcomes by simp
  from t[THEN conjunct2, THEN conjunct2, THEN conjunct1, rule_format, OF o]
  have w: "Fetch_warning ''BRA'' RequestException
       \<in> set (fst (run_page keep_ties ex_service ex_state (ex_inputs ''deu, bra ,usa'')))" .
  show ?thesis
    by (intro conjI ex_run_valid ex_countries_valid o w
        t[THEN conjunct1] t[THEN conjunct2, THEN conjunct1]
        t[THEN conjunct2, THEN conjunct2, THEN conjunct2])
qed

lemma ex_null_countries_valid:
  "parse_countries (countries_text (ex_inputs ''deu,bra'')) \<noteq> []"
  "length (parse_countries (countries_text (ex_inputs ''deu,bra''))) \<le> 15"
  by code_simp+

lemma ex_null_outcomes:
  "run_outcomes keep_ties ex_service_null ex_state (ex_inputs ''deu,bra'')
     = [(''DEU'', Inr empty_obs_frame), (''BRA'', Inl (HTTPError 503))]"
  by code_simp

lemma ex_state_ok: "cache_ok keep_ties ex_state"
  by (simp add: cache_ok_def ex_state_def)

theorem all_failed_or_empty_halts_witness:
  "run (ex_inputs ''deu,bra'')
   \<and> parse_countries (countries_text (ex_inputs ''deu,bra'')) \<noteq> []
   \<and> length (parse_countries (countries_text (ex_inputs ''deu,bra''))) \<le> 15
   \<and> cache_ok keep_ties ex_state
   \<and> run_outcomes keep_ties ex_service_null ex_state (ex_inputs ''deu,bra'')
       = [(''DEU'', Inr empty_obs_frame), (''BRA'', Inl (HTTPError 503))]
   \<and> df_empty empty_obs_frame
   \<and> df_empty (combined keep_ties ex_service_null ex_state (ex_inputs ''deu,bra''))
   \<and> fst (run_page keep_ties ex_service_null ex_state (ex_inputs ''deu,bra''))
       = warnings_of (run_outcomes keep_ties ex_service_null ex_state (ex_inputs ''deu,bra''))
         @ [No_data_warning]
   \<and> (\<forall>df i s e.
         Chart df \<notin> set (fst (run_page keep_ties ex_service_null ex_state (ex_inputs ''deu,bra'')))
         \<and> Dataframe df \<notin> set (fst (run_page keep_ties ex_service_null ex_state (ex_inputs ''deu,bra'')))
         \<and> Download_button df i s e
             \<notin> set (fst (run_page keep_ties ex_service_null ex_state (ex_inputs ''deu,bra''))))"
proof -
  have d: "df_empty empty_obs_frame"
    by (simp add: df_empty_def empty_obs_frame_def)
  have e: "\<forall>c f. (c, Inr f) \<in> set (run_outcomes keep_ties ex_service_null ex_state (ex_inputs ''deu,bra''))
          \<longrightarrow> df_empty f"
    unfolding ex_null_outcomes using d by simp
  note t = all_failed_or_empty_halts[OF ex_run_valid ex_null_countries_valid ex_state_ok e]
  show ?thesis
    by (intro conjI ex_run_valid ex_null_countries_valid ex_state_ok ex_null_outcomes d
        t[THEN conjunct1] t[THEN conjunct2, THEN conjunct1] t[THEN conjunct2, THEN conjunct2])
qed

lemma upper_char_idem: "upper_char (upper_char c) = upper_char c"
proof (cases "is_lower c")
  case True
  define d where "d = char_of ((of_char c :: nat) - 32)"
  have "(of_char c :: nat) < 256" by simp
  then have "((of_char c :: nat) - 32) mod 256 = of_char c - 32"
    by (intro mod_less) arith
  then have od: "(of_char d :: nat) = of_char c - 32"
    by (simp add: d_def)
  from True have u: "upper_char c = d" by (simp add: upper_char_def d_def)
  from True have "\<not> is_lower d"
    unfolding is_lower_def od by arith
  then have "upper_char d = d" by (simp only: upper_char_def if_False)
  with u show ?thesis by simp
next
  case False
  then have "upper_char c = c" by (simp only: upper_char_def if_False)
  then show ?thesis by simp
qed

lemma upper_idem: "upper (upper s) = upper s"
  by (simp add: upper_def upper_char_idem)

lemma parse_countries_upper:
  "c \<in> set (parse_countries text) \<Longrightarrow> upper c = c"
  by (auto simp: parse_countries_def upper_idem)

lemma combined_row_source:
  assumes "cache_ok alg st" and "r \<in> set (rows_of (combined alg net st inp))"
  shows "\<exists>f. (iso3 r, Inr f) \<in> set (run_outcomes alg net st inp) \<and> r \<in> set (rows_of f)
           \<and> iso3 r \<in> set (parse_countries (countries_text inp))"
proof -
  from assms(2) obtain f where f: "f \<in> set (tables_of (run_outcomes alg net st inp))"
    and r: "r \<in> set (rows_of f)"
    by (auto simp: rows_of_combined)
  from f obtain c where m: "(c, Inr f) \<in> set (run_outcomes alg net st inp)"
    by (auto simp: tables_of_mem)
  then have "(c, Inr f) \<in> set (outcomes alg net (indicator_code inp) (start_year inp)
          (end_year inp) (parse_countries (countries_text inp)) st)"
    by (simp add: run_outcomes_def)
  from outcomes_fetch_body[OF assms(1) this] obtain resp
    where c: "c \<in> set (parse_countries (countries_text inp))"
      and b: "fetch_body alg resp c (indicator_code inp) = Inr f" by blast
  from fetch_body_iso3[OF b r] parse_countries_upper[OF c] have "iso3 r = c" by simp
  with m r c show ?thesis by blast
qed

text \<open>
  Claim C9. In a run with 1 to 15 countries, started in a state whose memo table holds
  only tables the fetch returned, the \<^verbatim>\<open>iso3\<close> of every row of the combined table is one
  of the requested codes (trimmed and in upper case); the combined table is the only
  table the run shows.
\<close>

theorem combined_iso3_subset:
  assumes "cache_ok alg st"
    and "run inp"
    and "parse_countries (countries_text inp) \<noteq> []"
    and "length (parse_countries (countries_text inp)) \<le> 15"
  shows "iso3 ` set (rows_of (combined alg net st inp)) \<subseteq> set (parse_countries (countries_text inp))
     \<and> (\<forall>df. Dataframe df \<in> set (fst (run_page alg net st inp))
           \<longrightarrow> df = combined alg net st inp)"
proof
  show "iso3 ` set (rows_of (combined alg net st inp)) \<subseteq> set (parse_countries (countries_text inp))"
    using combined_row_source[OF assms(1)] by blast
  have w: "Dataframe df \<notin> set (warnings_of os)" for df os
    by (induction os rule: warnings_of.induct) auto
  show "\<forall>df. Dataframe df \<in> set (fst (run_page alg net st inp)) \<longrightarrow> df = combined alg net st inp"
    by (auto simp: run_page_valid[OF assms(2-4)] w render_def)
qed



lemma ex_shown_table:
  "Dataframe (combined keep_ties ex_service ex_state (ex_inputs ''deu, bra ,usa''))
     \<in> set (fst (run_page keep_ties ex_service ex_state (ex_inputs ''deu, bra ,usa'')))"
  by code_simp

theorem combined_iso3_subset_witness:
  "cache_ok keep_ties ex_state
   \<and> run (ex_inputs ''deu, bra ,usa'')
   \<and> parse_countries (countries_text (ex_inputs ''deu, bra ,usa'')) \<noteq> []
   \<and> length (parse_countries (countries_text (ex_inputs ''deu, bra ,usa''))) \<le> 15
   \<and> iso3 ` set (rows_of (combined keep_ties ex_service ex_state (ex_inputs ''deu, bra ,usa'')))
        \<subseteq> set (parse_countries (countries_text (ex_inputs ''deu, bra ,usa'')))
   \<and> Dataframe (combined keep_ties ex_service ex_state (ex_inputs ''deu, bra ,usa''))
       \<in> set (fst (run_page keep_ties ex_service ex_state (ex_inputs ''deu, bra ,usa'')))"
proof -
  note t = combined_iso3_subset[OF ex_state_ok ex_run_valid ex_countries_valid, of ex_service]
  show ?thesis
    by (intro conjI ex_state_ok ex_run_valid ex_countries_valid t[THEN conjunct1]
        ex_shown_table)
qed







subsection \<open>Repeated codes\<close>















end
